theory Spec2Isabelle
  imports Main
begin

section \<open>The schema of \<open>supabase/migrations\<close>\<close>

text \<open>
  The access rules of the repository are the row-level-security policies of its schema
  migration. A uuid is modelled as a natural number (an opaque token compared only for
  equality), a \<open>timestamptz\<close> as a natural number, \<open>text\<close> and \<open>jsonb\<close> as strings, and a
  nullable column as an \<open>option\<close> (\<open>None\<close> is SQL \<open>NULL\<close>).
\<close>

type_synonym uuid = nat
type_synonym timestamptz = nat

datatype user_role = Judge | Clerk | Trainee
datatype case_status = Open | In_progress | Under_review | Closed
datatype case_priority = Low | Medium | High | Urgent
datatype circle_role = Primary | Collaborating | Consulting

record judicial_circle =
  jc_id :: uuid
  jc_name :: string
  jc_description :: "string option"
  jc_created_at :: "timestamptz option"

record user_profile =
  up_id :: uuid
  up_full_name :: string
  up_role :: user_role
  up_circle_id :: "uuid option"
  up_employee_id :: string
  up_created_at :: "timestamptz option"

record case_row =
  cs_id :: uuid
  cs_case_number :: string
  cs_title :: string
  cs_description :: "string option"
  cs_status :: case_status
  cs_priority :: case_priority
  cs_primary_circle_id :: uuid
  cs_created_by :: uuid
  cs_assigned_judge :: "uuid option"
  cs_created_at :: "timestamptz option"
  cs_updated_at :: "timestamptz option"

record case_circle =
  cc_id :: uuid
  cc_case_id :: uuid
  cc_circle_id :: uuid
  cc_role :: circle_role
  cc_added_at :: "timestamptz option"
  cc_added_by :: uuid

record case_thread =
  ct_id :: uuid
  ct_case_id :: uuid
  ct_title :: string
  ct_created_by :: uuid
  ct_created_at :: "timestamptz option"

record case_message =
  cm_id :: uuid
  cm_thread_id :: uuid
  cm_content :: string
  cm_sender_id :: uuid
  cm_created_at :: "timestamptz option"
  cm_edited_at :: "timestamptz option"

text \<open>
  \<open>file_size\<close> is a 32-bit \<open>integer\<close> column: the value offered is an integer, and its
  range is checked when the row is written (\<open>case_documents_violation\<close>).
\<close>

record case_document =
  cd_id :: uuid
  cd_case_id :: uuid
  cd_file_name :: string
  cd_file_path :: string
  cd_file_type :: string
  cd_file_size :: int
  cd_ocr_content :: "string option"
  cd_uploaded_by :: uuid
  cd_uploaded_at :: "timestamptz option"

record audit_log =
  al_id :: uuid
  al_user_id :: "uuid option"
  al_action :: string
  al_resource_type :: string
  al_resource_id :: "uuid option"
  al_details :: "string option"
  al_ip_address :: "string option"
  al_user_agent :: "string option"
  al_created_at :: "timestamptz option"

text \<open>
  The database: one list of rows per table. \<open>auth_users\<close> holds the ids of \<open>auth.users\<close>,
  the table of the authentication service that the foreign keys of the schema refer to.
\<close>

record database =
  auth_users :: "uuid list"
  judicial_circles :: "judicial_circle list"
  user_profiles :: "user_profile list"
  cases :: "case_row list"
  case_circles :: "case_circle list"
  case_threads :: "case_thread list"
  case_messages :: "case_message list"
  case_documents :: "case_document list"
  audit_logs :: "audit_log list"

datatype row =
    Circle_row judicial_circle
  | Profile_row user_profile
  | Case_row case_row
  | Link_row case_circle
  | Thread_row case_thread
  | Message_row case_message
  | Document_row case_document
  | Audit_row audit_log

datatype table =
    Judicial_circles | User_profiles | Cases | Case_circles
  | Case_threads | Case_messages | Case_documents | Audit_logs

fun table_of :: "row \<Rightarrow> table" where
  "table_of (Circle_row r) = Judicial_circles"
| "table_of (Profile_row r) = User_profiles"
| "table_of (Case_row r) = Cases"
| "table_of (Link_row r) = Case_circles"
| "table_of (Thread_row r) = Case_threads"
| "table_of (Message_row r) = Case_messages"
| "table_of (Document_row r) = Case_documents"
| "table_of (Audit_row r) = Audit_logs"

datatype command = Select_cmd | Insert_cmd | Update_cmd | Delete_cmd

text \<open>
  Who issues a statement. Every policy of the migration is declared \<open>TO authenticated\<close>:
  it applies to a request carrying a user's token, for which \<open>auth.uid()\<close> is that user's
  id, and to no other database role.
\<close>

datatype caller = Anon | Authenticated uuid

section \<open>The row-level-security policies\<close>

text \<open>
  \<open>x IN (SELECT ...)\<close> for a non-null \<open>x\<close> over a column that may hold \<open>NULL\<close>: true when
  some selected value equals \<open>x\<close>; otherwise false or unknown, and a policy admits a row
  only when its expression is true.
\<close>

definition sql_in :: "uuid \<Rightarrow> uuid option list \<Rightarrow> bool" where
  "sql_in x ys = (Some x \<in> set ys)"

text \<open>
  A sub-select inside a policy expression is itself subject to row-level security.
  \<open>user_profiles\<close> as the caller reads it, under the policy
  "Users can view their own profile" (\<open>USING (id = auth.uid())\<close>):
\<close>

definition visible_profiles :: "database \<Rightarrow> uuid \<Rightarrow> user_profile list" where
  "visible_profiles db uid = filter (\<lambda>p. up_id p = uid) (user_profiles db)"

text \<open>\<open>SELECT circle_id FROM user_profiles WHERE id = auth.uid()\<close>\<close>

definition my_circles :: "database \<Rightarrow> uuid \<Rightarrow> uuid option list" where
  "my_circles db uid = map up_circle_id (filter (\<lambda>p. up_id p = uid) (visible_profiles db uid))"

text \<open>
  The expression shared by the policies on cases and on everything below a case, as
  it is written:
  \<^verbatim>\<open>primary_circle_id IN (SELECT circle_id FROM user_profiles WHERE id = auth.uid())
  OR id IN (SELECT case_id FROM case_circles
            WHERE circle_id IN (SELECT circle_id FROM user_profiles WHERE id = auth.uid()))\<close>
  Its sub-select on \<open>case_circles\<close> is in turn subject to the policy of \<open>case_circles\<close>,
  which sub-selects \<open>cases\<close>: the database refuses to expand the two policies, see
  \<open>rewrite\<close> below, and never evaluates this expression for a caller. The definition
  gives its value on the stored tables, which is what the expression says.
\<close>

definition accessible_case :: "database \<Rightarrow> uuid \<Rightarrow> case_row \<Rightarrow> bool" where
  "accessible_case db uid c =
     (sql_in (cs_primary_circle_id c) (my_circles db uid)
      \<or> cs_id c \<in> set (map cc_case_id
            (filter (\<lambda>l. sql_in (cc_circle_id l) (my_circles db uid)) (case_circles db))))"

text \<open>\<open>SELECT id FROM cases WHERE\<close> the expression above.\<close>

definition accessible_case_ids :: "database \<Rightarrow> uuid \<Rightarrow> uuid list" where
  "accessible_case_ids db uid = map cs_id (filter (accessible_case db uid) (cases db))"

text \<open>\<open>SELECT id FROM case_threads WHERE case_id IN (\<close>the accessible case ids\<open>)\<close>\<close>

definition accessible_thread_ids :: "database \<Rightarrow> uuid \<Rightarrow> uuid list" where
  "accessible_thread_ids db uid =
     map ct_id (filter (\<lambda>t. ct_case_id t \<in> set (accessible_case_ids db uid)) (case_threads db))"

text \<open>
  The expressions of the fifteen \<open>CREATE POLICY\<close> statements, in the order of the
  migration, for role \<open>authenticated\<close> with \<open>auth.uid() = uid\<close>. A policy is permissive; a
  table with row-level security enabled and no policy for a command admits no row for
  it, which is the last equation. \<open>USING\<close> and \<open>WITH CHECK\<close> expressions are both read on
  the row given (an \<open>UPDATE\<close> policy without \<open>WITH CHECK\<close> applies its \<open>USING\<close> expression
  to the new row as well). This is the value of an expression once the database has
  accepted the policies of the statement; whether it does is \<open>policies_rewrite\<close>.
\<close>

fun policy_expr :: "database \<Rightarrow> uuid \<Rightarrow> command \<Rightarrow> row \<Rightarrow> bool" where
  "policy_expr db uid Select_cmd (Circle_row r) = sql_in (jc_id r) (my_circles db uid)"
| "policy_expr db uid Select_cmd (Profile_row r) = (up_id r = uid)"
| "policy_expr db uid Update_cmd (Profile_row r) = (up_id r = uid)"
| "policy_expr db uid Select_cmd (Case_row r) = accessible_case db uid r"
| "policy_expr db uid Insert_cmd (Case_row r) =
     (filter (\<lambda>p. up_id p = uid \<and> (up_role p = Judge \<or> up_role p = Clerk))
        (visible_profiles db uid) \<noteq> [])"
| "policy_expr db uid Update_cmd (Case_row r) =
     sql_in (cs_primary_circle_id r)
       (map up_circle_id
         (filter (\<lambda>p. up_id p = uid \<and> (up_role p = Judge \<or> up_role p = Clerk))
            (visible_profiles db uid)))"
| "policy_expr db uid Select_cmd (Link_row r) =
     (cc_case_id r \<in> set (accessible_case_ids db uid))"
| "policy_expr db uid Select_cmd (Thread_row r) =
     (ct_case_id r \<in> set (accessible_case_ids db uid))"
| "policy_expr db uid Insert_cmd (Thread_row r) =
     (ct_case_id r \<in> set (accessible_case_ids db uid))"
| "policy_expr db uid Select_cmd (Message_row r) =
     (cm_thread_id r \<in> set (accessible_thread_ids db uid))"
| "policy_expr db uid Insert_cmd (Message_row r) =
     (cm_thread_id r \<in> set (accessible_thread_ids db uid))"
| "policy_expr db uid Select_cmd (Document_row r) =
     (cd_case_id r \<in> set (accessible_case_ids db uid))"
| "policy_expr db uid Insert_cmd (Document_row r) =
     (cd_case_id r \<in> set (accessible_case_ids db uid))"
| "policy_expr db uid Select_cmd (Audit_row r) =
     (filter (\<lambda>p. up_id p = uid \<and> up_role p = Judge) (visible_profiles db uid) \<noteq> [])"
| "policy_expr db uid Insert_cmd (Audit_row r) = True"
| "policy_expr db uid _ _ = False"

subsection \<open>Expanding the policies of a statement\<close>

text \<open>
  Before a statement runs, the database adds the policy expressions of each table the
  statement reads to the query, and does the same for every table that a sub-select of
  those expressions reads, with that table's \<open>SELECT\<close> policies. A table whose policies
  hold sub-selects is marked while they are expanded; meeting a marked table again
  raises SQLSTATE 42P17, "infinite recursion detected in policy for relation".

  A sub-select is the table it reads and the sub-selects of its \<open>WHERE\<close> clause.
\<close>

datatype subquery = Subquery table "subquery list"

text \<open>\<open>SELECT circle_id FROM user_profiles WHERE id = auth.uid()\<close> (and with a role test)\<close>

definition profiles_subquery :: subquery where
  "profiles_subquery = Subquery User_profiles []"

text \<open>\<open>SELECT case_id FROM case_circles WHERE circle_id IN (SELECT ... FROM user_profiles ...)\<close>\<close>

definition links_subquery :: subquery where
  "links_subquery = Subquery Case_circles [profiles_subquery]"

text \<open>\<open>SELECT id FROM cases WHERE primary_circle_id IN (...) OR id IN (...)\<close>\<close>

definition cases_subquery :: subquery where
  "cases_subquery = Subquery Cases [profiles_subquery, links_subquery]"

text \<open>\<open>SELECT id FROM case_threads WHERE case_id IN (SELECT id FROM cases ...)\<close>\<close>

definition threads_subquery :: subquery where
  "threads_subquery = Subquery Case_threads [cases_subquery]"

text \<open>
  The sub-selects of the policy expressions of each command on each table, policy by
  policy as in \<open>policy_expr\<close>; the policies on \<open>user_profiles\<close> and the \<open>INSERT\<close> policy
  on \<open>audit_logs\<close> have none.
\<close>

fun policy_subqueries :: "command \<Rightarrow> table \<Rightarrow> subquery list" where
  "policy_subqueries Select_cmd Judicial_circles = [profiles_subquery]"
| "policy_subqueries Select_cmd Cases = [profiles_subquery, links_subquery]"
| "policy_subqueries Insert_cmd Cases = [profiles_subquery]"
| "policy_subqueries Update_cmd Cases = [profiles_subquery]"
| "policy_subqueries Select_cmd Case_circles = [cases_subquery]"
| "policy_subqueries Select_cmd Case_threads = [cases_subquery]"
| "policy_subqueries Insert_cmd Case_threads = [cases_subquery]"
| "policy_subqueries Select_cmd Case_messages = [threads_subquery]"
| "policy_subqueries Insert_cmd Case_messages = [threads_subquery]"
| "policy_subqueries Select_cmd Case_documents = [cases_subquery]"
| "policy_subqueries Insert_cmd Case_documents = [cases_subquery]"
| "policy_subqueries Select_cmd Audit_logs = [profiles_subquery]"
| "policy_subqueries _ _ = []"

text \<open>
  Expanding a sub-select while the tables \<open>active\<close> are marked: its own sub-selects
  first, then the \<open>SELECT\<close> policies of the table it reads. \<open>False\<close> is the error 42P17.
  The expansion ends because each step into a table's policies marks one more of the
  eight tables.
\<close>

function rewrite :: "table list \<Rightarrow> subquery \<Rightarrow> bool" where
  "rewrite active (Subquery t nested) =
     (if \<not> list_all (rewrite active) nested then False
      else if policy_subqueries Select_cmd t = [] then True
      else if t \<in> set active then False
      else list_all (rewrite (t # active)) (policy_subqueries Select_cmd t))"
  by pat_completeness auto
termination
proof (relation "(\<lambda>(active, q). card (UNIV - set active)) <*mlex*> measure (\<lambda>(active, q). size q)",
    goal_cases)
  case 1
  show ?case by (simp add: wf_mlex)
next
  case (2 active t nested x)
  then show ?case
    by (auto intro!: mlex_leq simp: less_Suc_eq_le size_list_estimation')
next
  case (3 active t nested x)
  have "(UNIV :: table set) =
    {Judicial_circles, User_profiles, Cases, Case_circles, Case_threads, Case_messages,
     Case_documents, Audit_logs}"
    by (auto intro: table.exhaust)
  then have "finite (UNIV :: table set)"
    by (metis finite.emptyI finite.insertI)
  then have "finite (UNIV - set active)" by simp
  moreover from 3 have "UNIV - set (t # active) \<subset> UNIV - set active" by auto
  ultimately have "card (UNIV - set (t # active)) < card (UNIV - set active)"
    by (rule psubset_card_mono)
  then show ?case
    by (auto intro!: mlex_less)
qed

text \<open>
  The policies of one command on the table of a statement: if they hold sub-selects,
  the table is marked and they are expanded.
\<close>

definition policies_rewrite :: "command \<Rightarrow> table \<Rightarrow> bool" where
  "policies_rewrite cmd t =
     (policy_subqueries cmd t = [] \<or> list_all (rewrite [t]) (policy_subqueries cmd t))"

text \<open>
  The policies of a command admit a row for a caller: the caller is \<open>authenticated\<close> (a
  caller that is not has no policy on any table, and all eight tables have row-level
  security enabled), the policies can be expanded, and their expression is true.
\<close>

fun rls_permits :: "database \<Rightarrow> caller \<Rightarrow> command \<Rightarrow> row \<Rightarrow> bool" where
  "rls_permits db Anon cmd r = False"
| "rls_permits db (Authenticated uid) cmd r =
     (policies_rewrite cmd (table_of r) \<and> policy_expr db uid cmd r)"

text \<open>
  What a statement can answer: SQLSTATE 23505 (a \<open>PRIMARY KEY\<close> or \<open>UNIQUE\<close> constraint),
  23503 (a \<open>REFERENCES\<close> constraint), 22003 (a value outside the range of its column),
  42501 (a new row rejected by row-level security) and 42P17 (policies that cannot be
  expanded).
\<close>

datatype error =
    Unique_violation | Foreign_key_violation | Numeric_value_out_of_range
  | Insufficient_privilege | Infinite_recursion

text \<open>
  The policies that a statement brings in. An \<open>UPDATE\<close> or \<open>DELETE\<close> with a \<open>WHERE\<close> clause
  reads the table, so the \<open>SELECT\<close> policies apply to it beside those of its own command.
\<close>

fun applied_commands :: "command \<Rightarrow> command list" where
  "applied_commands Select_cmd = [Select_cmd]"
| "applied_commands Insert_cmd = [Insert_cmd]"
| "applied_commands Update_cmd = [Update_cmd, Select_cmd]"
| "applied_commands Delete_cmd = [Delete_cmd, Select_cmd]"

text \<open>
  The statement of a caller on a table raises 42P17. No policy applies to a caller that
  is not \<open>authenticated\<close>, so nothing is expanded for it.
\<close>

fun raises_recursion :: "caller \<Rightarrow> command \<Rightarrow> table \<Rightarrow> bool" where
  "raises_recursion Anon cmd t = False"
| "raises_recursion (Authenticated uid) cmd t =
     (\<not> list_all (\<lambda>c. policies_rewrite c t) (applied_commands cmd))"

text \<open>
  The rows that a statement with a \<open>WHERE\<close> clause sees, and the new rows it may write:
  those that the policies of its command and the \<open>SELECT\<close> policies both admit.
\<close>

definition where_permits :: "database \<Rightarrow> caller \<Rightarrow> command \<Rightarrow> row \<Rightarrow> bool" where
  "where_permits db a cmd r = list_all (\<lambda>c. rls_permits db a c r) (applied_commands cmd)"

text \<open>\<open>SELECT\<close> of a stored row: an error, or whether the caller sees the row.\<close>

definition select_row :: "database \<Rightarrow> caller \<Rightarrow> row \<Rightarrow> error + bool" where
  "select_row db a r =
     (if raises_recursion a Select_cmd (table_of r) then Inl Infinite_recursion
      else Inr (rls_permits db a Select_cmd r))"

section \<open>Constraints and statements\<close>

text \<open>A nullable reference is satisfied by \<open>NULL\<close>.\<close>

definition fk_present :: "uuid option \<Rightarrow> uuid list \<Rightarrow> bool" where
  "fk_present x ids = (case x of None \<Rightarrow> True | Some v \<Rightarrow> v \<in> set ids)"

text \<open>
  The constraints of each \<open>CREATE TABLE\<close>, checked for a row \<open>r\<close> against the rows
  \<open>others\<close> it will stand beside. A value is fitted to its column before the row is
  written, unique indexes are checked as the row is written, references at the end of
  the statement; the violations are reported in that order.
\<close>

definition judicial_circles_violation ::
    "database \<Rightarrow> judicial_circle list \<Rightarrow> judicial_circle \<Rightarrow> error option" where
  "judicial_circles_violation db others r =
     (if jc_id r \<in> set (map jc_id others) then Some Unique_violation else None)"

definition user_profiles_violation ::
    "database \<Rightarrow> user_profile list \<Rightarrow> user_profile \<Rightarrow> error option" where
  "user_profiles_violation db others r =
     (if up_id r \<in> set (map up_id others) \<or> up_employee_id r \<in> set (map up_employee_id others)
      then Some Unique_violation
      else if up_id r \<notin> set (auth_users db)
              \<or> \<not> fk_present (up_circle_id r) (map jc_id (judicial_circles db))
      then Some Foreign_key_violation
      else None)"

definition cases_violation :: "database \<Rightarrow> case_row list \<Rightarrow> case_row \<Rightarrow> error option" where
  "cases_violation db others r =
     (if cs_id r \<in> set (map cs_id others) \<or> cs_case_number r \<in> set (map cs_case_number others)
      then Some Unique_violation
      else if cs_primary_circle_id r \<notin> set (map jc_id (judicial_circles db))
              \<or> cs_created_by r \<notin> set (auth_users db)
              \<or> \<not> fk_present (cs_assigned_judge r) (auth_users db)
      then Some Foreign_key_violation
      else None)"

text \<open>\<open>UNIQUE(case_id, circle_id)\<close> is the second disjunct.\<close>

definition case_circles_violation ::
    "database \<Rightarrow> case_circle list \<Rightarrow> case_circle \<Rightarrow> error option" where
  "case_circles_violation db others r =
     (if cc_id r \<in> set (map cc_id others)
         \<or> (cc_case_id r, cc_circle_id r) \<in> set (map (\<lambda>l. (cc_case_id l, cc_circle_id l)) others)
      then Some Unique_violation
      else if cc_case_id r \<notin> set (map cs_id (cases db))
              \<or> cc_circle_id r \<notin> set (map jc_id (judicial_circles db))
              \<or> cc_added_by r \<notin> set (auth_users db)
      then Some Foreign_key_violation
      else None)"

definition case_threads_violation ::
    "database \<Rightarrow> case_thread list \<Rightarrow> case_thread \<Rightarrow> error option" where
  "case_threads_violation db others r =
     (if ct_id r \<in> set (map ct_id others) then Some Unique_violation
      else if ct_case_id r \<notin> set (map cs_id (cases db)) \<or> ct_created_by r \<notin> set (auth_users db)
      then Some Foreign_key_violation
      else None)"

definition case_messages_violation ::
    "database \<Rightarrow> case_message list \<Rightarrow> case_message \<Rightarrow> error option" where
  "case_messages_violation db others r =
     (if cm_id r \<in> set (map cm_id others) then Some Unique_violation
      else if cm_thread_id r \<notin> set (map ct_id (case_threads db))
              \<or> cm_sender_id r \<notin> set (auth_users db)
      then Some Foreign_key_violation
      else None)"

definition case_documents_violation ::
    "database \<Rightarrow> case_document list \<Rightarrow> case_document \<Rightarrow> error option" where
  "case_documents_violation db others r =
     (if cd_file_size r < - (2 ^ 31) \<or> 2 ^ 31 \<le> cd_file_size r
      then Some Numeric_value_out_of_range
      else if cd_id r \<in> set (map cd_id others) then Some Unique_violation
      else if cd_case_id r \<notin> set (map cs_id (cases db)) \<or> cd_uploaded_by r \<notin> set (auth_users db)
      then Some Foreign_key_violation
      else None)"

definition audit_logs_violation :: "database \<Rightarrow> audit_log list \<Rightarrow> audit_log \<Rightarrow> error option" where
  "audit_logs_violation db others r =
     (if al_id r \<in> set (map al_id others) then Some Unique_violation
      else if \<not> fk_present (al_user_id r) (auth_users db) then Some Foreign_key_violation
      else None)"

subsection \<open>INSERT\<close>

text \<open>\<open>INSERT\<close> of one row, the constraints checked, row-level security aside.\<close>

fun insert_row :: "database \<Rightarrow> row \<Rightarrow> error + database" where
  "insert_row db (Circle_row r) =
     (case judicial_circles_violation db (judicial_circles db) r of
        Some e \<Rightarrow> Inl e
      | None \<Rightarrow> Inr (db\<lparr>judicial_circles := judicial_circles db @ [r]\<rparr>))"
| "insert_row db (Profile_row r) =
     (case user_profiles_violation db (user_profiles db) r of
        Some e \<Rightarrow> Inl e
      | None \<Rightarrow> Inr (db\<lparr>user_profiles := user_profiles db @ [r]\<rparr>))"
| "insert_row db (Case_row r) =
     (case cases_violation db (cases db) r of
        Some e \<Rightarrow> Inl e
      | None \<Rightarrow> Inr (db\<lparr>cases := cases db @ [r]\<rparr>))"
| "insert_row db (Link_row r) =
     (case case_circles_violation db (case_circles db) r of
        Some e \<Rightarrow> Inl e
      | None \<Rightarrow> Inr (db\<lparr>case_circles := case_circles db @ [r]\<rparr>))"
| "insert_row db (Thread_row r) =
     (case case_threads_violation db (case_threads db) r of
        Some e \<Rightarrow> Inl e
      | None \<Rightarrow> Inr (db\<lparr>case_threads := case_threads db @ [r]\<rparr>))"
| "insert_row db (Message_row r) =
     (case case_messages_violation db (case_messages db) r of
        Some e \<Rightarrow> Inl e
      | None \<Rightarrow> Inr (db\<lparr>case_messages := case_messages db @ [r]\<rparr>))"
| "insert_row db (Document_row r) =
     (case case_documents_violation db (case_documents db) r of
        Some e \<Rightarrow> Inl e
      | None \<Rightarrow> Inr (db\<lparr>case_documents := case_documents db @ [r]\<rparr>))"
| "insert_row db (Audit_row r) =
     (case audit_logs_violation db (audit_logs db) r of
        Some e \<Rightarrow> Inl e
      | None \<Rightarrow> Inr (db\<lparr>audit_logs := audit_logs db @ [r]\<rparr>))"

subsection \<open>UPDATE\<close>

text \<open>
  No reference of the schema declares \<open>ON UPDATE\<close>, so a key that other rows refer to
  cannot be changed. These are the rows that refer to a circle, a case and a thread.
\<close>

definition circle_referenced :: "database \<Rightarrow> uuid \<Rightarrow> bool" where
  "circle_referenced db k =
     (Some k \<in> set (map up_circle_id (user_profiles db))
      \<or> k \<in> set (map cs_primary_circle_id (cases db))
      \<or> k \<in> set (map cc_circle_id (case_circles db)))"

definition case_referenced :: "database \<Rightarrow> uuid \<Rightarrow> bool" where
  "case_referenced db k =
     (k \<in> set (map cc_case_id (case_circles db))
      \<or> k \<in> set (map ct_case_id (case_threads db))
      \<or> k \<in> set (map cd_case_id (case_documents db)))"

definition thread_referenced :: "database \<Rightarrow> uuid \<Rightarrow> bool" where
  "thread_referenced db k = (k \<in> set (map cm_thread_id (case_messages db)))"

text \<open>
  \<open>UPDATE t SET (all columns) = new WHERE id = k\<close>. \<open>vis\<close> is the filter that row-level
  security adds to the statement (the expressions of the \<open>UPDATE\<close> and, for the \<open>WHERE\<close>
  clause, of the \<open>SELECT\<close> policies on the stored row; none for the owner of the table)
  and \<open>chk\<close> its verdict on the new row. A row that the filter hides is not updated and
  raises nothing; a new row that fails the check raises; then the constraints are
  checked for the new row beside the rows that stay.
\<close>

definition update_table ::
    "('r \<Rightarrow> uuid) \<Rightarrow> ('r list \<Rightarrow> 'r \<Rightarrow> error option) \<Rightarrow> bool \<Rightarrow> ('r \<Rightarrow> bool) \<Rightarrow> bool \<Rightarrow> uuid \<Rightarrow> 'r
      \<Rightarrow> 'r list \<Rightarrow> error + 'r list" where
  "update_table key violation referenced vis chk k new rs =
     (if filter (\<lambda>r. key r = k \<and> vis r) rs = [] then Inr rs
      else if \<not> chk then Inl Insufficient_privilege
      else case violation (filter (\<lambda>r. \<not> (key r = k \<and> vis r)) rs) new of
             Some e \<Rightarrow> Inl e
           | None \<Rightarrow>
               if key new \<noteq> k \<and> referenced then Inl Foreign_key_violation
               else Inr (map (\<lambda>r. if key r = k \<and> vis r then new else r) rs))"

fun update_row :: "database \<Rightarrow> (row \<Rightarrow> bool) \<Rightarrow> uuid \<Rightarrow> row \<Rightarrow> error + database" where
  "update_row db vis k (Circle_row new) =
     map_sum (\<lambda>e. e) (\<lambda>rs. db\<lparr>judicial_circles := rs\<rparr>)
       (update_table jc_id (judicial_circles_violation db) (circle_referenced db k)
          (\<lambda>r. vis (Circle_row r)) (vis (Circle_row new)) k new (judicial_circles db))"
| "update_row db vis k (Profile_row new) =
     map_sum (\<lambda>e. e) (\<lambda>rs. db\<lparr>user_profiles := rs\<rparr>)
       (update_table up_id (user_profiles_violation db) False
          (\<lambda>r. vis (Profile_row r)) (vis (Profile_row new)) k new (user_profiles db))"
| "update_row db vis k (Case_row new) =
     map_sum (\<lambda>e. e) (\<lambda>rs. db\<lparr>cases := rs\<rparr>)
       (update_table cs_id (cases_violation db) (case_referenced db k)
          (\<lambda>r. vis (Case_row r)) (vis (Case_row new)) k new (cases db))"
| "update_row db vis k (Link_row new) =
     map_sum (\<lambda>e. e) (\<lambda>rs. db\<lparr>case_circles := rs\<rparr>)
       (update_table cc_id (case_circles_violation db) False
          (\<lambda>r. vis (Link_row r)) (vis (Link_row new)) k new (case_circles db))"
| "update_row db vis k (Thread_row new) =
     map_sum (\<lambda>e. e) (\<lambda>rs. db\<lparr>case_threads := rs\<rparr>)
       (update_table ct_id (case_threads_violation db) (thread_referenced db k)
          (\<lambda>r. vis (Thread_row r)) (vis (Thread_row new)) k new (case_threads db))"
| "update_row db vis k (Message_row new) =
     map_sum (\<lambda>e. e) (\<lambda>rs. db\<lparr>case_messages := rs\<rparr>)
       (update_table cm_id (case_messages_violation db) False
          (\<lambda>r. vis (Message_row r)) (vis (Message_row new)) k new (case_messages db))"
| "update_row db vis k (Document_row new) =
     map_sum (\<lambda>e. e) (\<lambda>rs. db\<lparr>case_documents := rs\<rparr>)
       (update_table cd_id (case_documents_violation db) False
          (\<lambda>r. vis (Document_row r)) (vis (Document_row new)) k new (case_documents db))"
| "update_row db vis k (Audit_row new) =
     map_sum (\<lambda>e. e) (\<lambda>rs. db\<lparr>audit_logs := rs\<rparr>)
       (update_table al_id (audit_logs_violation db) False
          (\<lambda>r. vis (Audit_row r)) (vis (Audit_row new)) k new (audit_logs db))"

subsection \<open>DELETE\<close>

text \<open>
  \<open>DELETE FROM t WHERE id = k\<close>, with \<open>vis\<close> the filter of row-level security (the
  expressions of the \<open>DELETE\<close> and of the \<open>SELECT\<close> policies on the stored row). The
  references to a case and to a thread are declared \<open>ON DELETE CASCADE\<close>: deleting a
  case deletes its collaboration links, its threads with their messages, and its
  documents. A circle that is referred to cannot be deleted.
\<close>

fun delete_row :: "database \<Rightarrow> (row \<Rightarrow> bool) \<Rightarrow> table \<Rightarrow> uuid \<Rightarrow> error + database" where
  "delete_row db vis Judicial_circles k =
     (if filter (\<lambda>r. jc_id r = k \<and> vis (Circle_row r)) (judicial_circles db) = [] then Inr db
      else if circle_referenced db k then Inl Foreign_key_violation
      else Inr (db\<lparr>judicial_circles :=
                  filter (\<lambda>r. \<not> (jc_id r = k \<and> vis (Circle_row r))) (judicial_circles db)\<rparr>))"
| "delete_row db vis User_profiles k =
     Inr (db\<lparr>user_profiles :=
               filter (\<lambda>r. \<not> (up_id r = k \<and> vis (Profile_row r))) (user_profiles db)\<rparr>)"
| "delete_row db vis Cases k =
     (if filter (\<lambda>r. cs_id r = k \<and> vis (Case_row r)) (cases db) = [] then Inr db
      else Inr (db\<lparr>cases := filter (\<lambda>r. \<not> (cs_id r = k \<and> vis (Case_row r))) (cases db),
                  case_circles := filter (\<lambda>l. cc_case_id l \<noteq> k) (case_circles db),
                  case_threads := filter (\<lambda>t. ct_case_id t \<noteq> k) (case_threads db),
                  case_messages :=
                    filter (\<lambda>m. cm_thread_id m \<notin>
                                  set (map ct_id (filter (\<lambda>t. ct_case_id t = k) (case_threads db))))
                      (case_messages db),
                  case_documents := filter (\<lambda>d. cd_case_id d \<noteq> k) (case_documents db)\<rparr>))"
| "delete_row db vis Case_circles k =
     Inr (db\<lparr>case_circles :=
               filter (\<lambda>r. \<not> (cc_id r = k \<and> vis (Link_row r))) (case_circles db)\<rparr>)"
| "delete_row db vis Case_threads k =
     (if filter (\<lambda>r. ct_id r = k \<and> vis (Thread_row r)) (case_threads db) = [] then Inr db
      else Inr (db\<lparr>case_threads :=
                    filter (\<lambda>r. \<not> (ct_id r = k \<and> vis (Thread_row r))) (case_threads db),
                  case_messages := filter (\<lambda>m. cm_thread_id m \<noteq> k) (case_messages db)\<rparr>))"
| "delete_row db vis Case_messages k =
     Inr (db\<lparr>case_messages :=
               filter (\<lambda>r. \<not> (cm_id r = k \<and> vis (Message_row r))) (case_messages db)\<rparr>)"
| "delete_row db vis Case_documents k =
     Inr (db\<lparr>case_documents :=
               filter (\<lambda>r. \<not> (cd_id r = k \<and> vis (Document_row r))) (case_documents db)\<rparr>)"
| "delete_row db vis Audit_logs k =
     Inr (db\<lparr>audit_logs :=
               filter (\<lambda>r. \<not> (al_id r = k \<and> vis (Audit_row r))) (audit_logs db)\<rparr>)"

subsection \<open>Statements of a caller\<close>

text \<open>\<open>auth.uid()\<close>: the id in the caller's token, \<open>NULL\<close> without one.\<close>

fun auth_uid :: "caller \<Rightarrow> uuid option" where
  "auth_uid Anon = None"
| "auth_uid (Authenticated uid) = Some uid"

text \<open>
  \<open>log_audit_event(p_action, p_resource_type, p_resource_id, p_details)\<close>. The function is
  \<open>SECURITY DEFINER\<close>: its \<open>INSERT\<close> runs with the rights of the role that created the
  function and the table, to which the policies do not apply. \<open>new_id\<close> and \<open>now\<close> are the
  values of the column defaults \<open>gen_random_uuid()\<close> and \<open>now()\<close>.
\<close>

definition log_audit_event ::
    "database \<Rightarrow> caller \<Rightarrow> uuid \<Rightarrow> timestamptz \<Rightarrow> string \<Rightarrow> string \<Rightarrow> uuid option \<Rightarrow> string option
      \<Rightarrow> error + database" where
  "log_audit_event db a new_id now p_action p_resource_type p_resource_id p_details =
     insert_row db (Audit_row
       \<lparr>al_id = new_id, al_user_id = auth_uid a, al_action = p_action,
        al_resource_type = p_resource_type, al_resource_id = p_resource_id,
        al_details = p_details, al_ip_address = None, al_user_agent = None,
        al_created_at = Some now\<rparr>)"

datatype statement =
    Insert row
  | Update uuid row
  | Delete table uuid
  | Log_audit_event uuid timestamptz string string "uuid option" "string option"

text \<open>
  A statement issued by a caller who is subject to row-level security:
  \<open>INSERT\<close> of one row, \<open>UPDATE t SET (all columns) = new WHERE id = k\<close>,
  \<open>DELETE FROM t WHERE id = k\<close>, and a call of \<open>log_audit_event\<close>. The policies of the
  statement are expanded first, which may raise 42P17. Then an \<open>INSERT\<close> whose row the
  policies reject raises 42501; \<open>UPDATE\<close> and \<open>DELETE\<close> see only the rows the policies
  admit.
\<close>

fun exec :: "database \<Rightarrow> caller \<Rightarrow> statement \<Rightarrow> error + database" where
  "exec db a (Insert r) =
     (if raises_recursion a Insert_cmd (table_of r) then Inl Infinite_recursion
      else if rls_permits db a Insert_cmd r then insert_row db r
      else Inl Insufficient_privilege)"
| "exec db a (Update k new) =
     (if raises_recursion a Update_cmd (table_of new) then Inl Infinite_recursion
      else update_row db (where_permits db a Update_cmd) k new)"
| "exec db a (Delete t k) =
     (if raises_recursion a Delete_cmd t then Inl Infinite_recursion
      else delete_row db (where_permits db a Delete_cmd) t k)"
| "exec db a (Log_audit_event new_id now p_action p_resource_type p_resource_id p_details) =
     log_audit_event db a new_id now p_action p_resource_type p_resource_id p_details"

text \<open>A statement that raises leaves the database as it was.\<close>

definition state_after :: "database \<Rightarrow> error + database \<Rightarrow> database" where
  "state_after db res = (case res of Inl e \<Rightarrow> db | Inr db' \<Rightarrow> db')"

text \<open>A history: statements of any callers, run in turn from a database.\<close>

fun run :: "database \<Rightarrow> (caller \<times> statement) list \<Rightarrow> database" where
  "run db [] = db"
| "run db ((a, s) # rest) = run (state_after db (exec db a s)) rest"

section \<open>The relationship index of the specification\<close>

text \<open>
  The definitions of this section follow the words of the specification; the policies
  above are compared with them.

  The entitled-circle set of a case: the primary circle together with the circle of
  every collaboration link of the case.
\<close>

definition entitledCircles :: "database \<Rightarrow> case_row \<Rightarrow> uuid set" where
  "entitledCircles db c =
     insert (cs_primary_circle_id c)
       (set (map cc_circle_id (filter (\<lambda>l. cc_case_id l = cs_id c) (case_circles db))))"

text \<open>The profile of the caller: the row of \<open>user_profiles\<close> with the caller's id.\<close>

fun profile_of :: "database \<Rightarrow> caller \<Rightarrow> user_profile option" where
  "profile_of db Anon = None"
| "profile_of db (Authenticated uid) = find (\<lambda>p. up_id p = uid) (user_profiles db)"

definition homeCircle :: "database \<Rightarrow> caller \<Rightarrow> uuid option" where
  "homeCircle db a = (case profile_of db a of None \<Rightarrow> None | Some p \<Rightarrow> up_circle_id p)"

definition actor_role :: "database \<Rightarrow> caller \<Rightarrow> user_role option" where
  "actor_role db a = map_option up_role (profile_of db a)"

text \<open>Rule 3 of the specification: case view.\<close>

definition spec_case_view :: "database \<Rightarrow> caller \<Rightarrow> case_row \<Rightarrow> bool" where
  "spec_case_view db a c =
     (case homeCircle db a of None \<Rightarrow> False | Some h \<Rightarrow> h \<in> entitledCircles db c)"

text \<open>Rules 5 and 6 of the specification: case update and manage collaboration.\<close>

definition spec_manage_collaboration :: "database \<Rightarrow> caller \<Rightarrow> case_row \<Rightarrow> bool" where
  "spec_manage_collaboration db a c =
     ((actor_role db a = Some Judge \<or> actor_role db a = Some Clerk)
      \<and> homeCircle db a = Some (cs_primary_circle_id c))"

text \<open>Rule 8 of the specification: audit view.\<close>

definition spec_audit_view :: "database \<Rightarrow> caller \<Rightarrow> bool" where
  "spec_audit_view db a = (actor_role db a = Some Judge)"

text \<open>The primary keys of the tables that the policies look rows up in.\<close>

definition pk_user_profiles :: "database \<Rightarrow> bool" where
  "pk_user_profiles db = distinct (map up_id (user_profiles db))"

definition pk_cases :: "database \<Rightarrow> bool" where
  "pk_cases db = distinct (map cs_id (cases db))"

definition pk_case_threads :: "database \<Rightarrow> bool" where
  "pk_case_threads db = distinct (map ct_id (case_threads db))"

section \<open>A small database\<close>

text \<open>
  Three circles; a judge of circle 1, a clerk of circle 2, a trainee of circle 3, a judge
  whose profile has no circle, and a user (14) without a profile; one case of circle 1
  with circle 2 linked as collaborator, one thread, one message and one document.
\<close>

definition demo_circle :: "uuid \<Rightarrow> judicial_circle" where
  "demo_circle k = \<lparr>jc_id = k, jc_name = ''circle'', jc_description = None, jc_created_at = Some 0\<rparr>"

definition demo_profile :: "uuid \<Rightarrow> user_role \<Rightarrow> uuid option \<Rightarrow> string \<Rightarrow> user_profile" where
  "demo_profile k r c e =
     \<lparr>up_id = k, up_full_name = ''user'', up_role = r, up_circle_id = c, up_employee_id = e,
      up_created_at = Some 0\<rparr>"

definition demo_case :: case_row where
  "demo_case =
     \<lparr>cs_id = 100, cs_case_number = ''CASE-1'', cs_title = ''case'', cs_description = None,
      cs_status = Open, cs_priority = Medium, cs_primary_circle_id = 1, cs_created_by = 10,
      cs_assigned_judge = None, cs_created_at = Some 1, cs_updated_at = Some 1\<rparr>"

definition demo_link :: case_circle where
  "demo_link =
     \<lparr>cc_id = 200, cc_case_id = 100, cc_circle_id = 2, cc_role = Collaborating,
      cc_added_at = Some 2, cc_added_by = 10\<rparr>"

definition demo_thread :: case_thread where
  "demo_thread =
     \<lparr>ct_id = 300, ct_case_id = 100, ct_title = ''thread'', ct_created_by = 10,
      ct_created_at = Some 3\<rparr>"

definition demo_message :: case_message where
  "demo_message =
     \<lparr>cm_id = 400, cm_thread_id = 300, cm_content = ''text'', cm_sender_id = 11,
      cm_created_at = Some 4, cm_edited_at = None\<rparr>"

definition demo_document :: case_document where
  "demo_document =
     \<lparr>cd_id = 500, cd_case_id = 100, cd_file_name = ''a.pdf'', cd_file_path = ''/a.pdf'',
      cd_file_type = ''pdf'', cd_file_size = 10, cd_ocr_content = None, cd_uploaded_by = 10,
      cd_uploaded_at = Some 5\<rparr>"

definition demo_audit :: audit_log where
  "demo_audit =
     \<lparr>al_id = 600, al_user_id = None, al_action = ''denied'', al_resource_type = ''case'',
      al_resource_id = Some 100, al_details = None, al_ip_address = None,
      al_user_agent = None, al_created_at = Some 6\<rparr>"

definition demo_db :: database where
  "demo_db =
     \<lparr>auth_users = [10, 11, 12, 13, 14],
      judicial_circles = [demo_circle 1, demo_circle 2, demo_circle 3],
      user_profiles =
        [demo_profile 10 Judge (Some 1) ''E10'', demo_profile 11 Clerk (Some 2) ''E11'',
         demo_profile 12 Trainee (Some 3) ''E12'', demo_profile 13 Judge None ''E13''],
      cases = [demo_case],
      case_circles = [demo_link],
      case_threads = [demo_thread],
      case_messages = [demo_message],
      case_documents = [demo_document],
      audit_logs = []\<rparr>"

text \<open>A link of circle 3 to the case, and the same pair under another id.\<close>

definition demo_link3 :: case_circle where
  "demo_link3 =
     \<lparr>cc_id = 201, cc_case_id = 100, cc_circle_id = 3, cc_role = Consulting,
      cc_added_at = Some 7, cc_added_by = 10\<rparr>"

definition demo_link3_again :: case_circle where
  "demo_link3_again = demo_link3\<lparr>cc_id := 202, cc_added_at := Some 8\<rparr>"

text \<open>
  A history: the collaborating clerk tries to delete the link; the judge of the primary
  circle opens a second case, then tries to close the first; the trainee rewrites its
  own profile to a judge of circle 1, then tries to delete the first case; a caller
  without a token tries the same.
\<close>

definition demo_case_closed :: case_row where
  "demo_case_closed = demo_case\<lparr>cs_status := Closed, cs_updated_at := Some 9\<rparr>"

definition demo_case2 :: case_row where
  "demo_case2 = demo_case\<lparr>cs_id := 101, cs_case_number := ''CASE-2''\<rparr>"

definition demo_history :: "(caller \<times> statement) list" where
  "demo_history =
     [(Authenticated 11, Delete Case_circles 200),
      (Authenticated 10, Insert (Case_row demo_case2)),
      (Authenticated 10, Update 100 (Case_row demo_case_closed)),
      (Authenticated 12, Update 12 (Profile_row (demo_profile 12 Judge (Some 1) ''E12''))),
      (Authenticated 12, Delete Cases 100),
      (Anon, Delete Cases 100)]"

definition demo_db_after :: database where
  "demo_db_after =
     demo_db\<lparr>user_profiles :=
        [demo_profile 10 Judge (Some 1) ''E10'', demo_profile 11 Clerk (Some 2) ''E11'',
         demo_profile 12 Judge (Some 1) ''E12'', demo_profile 13 Judge None ''E13''],
      cases := [demo_case, demo_case2]\<rparr>"

lemmas subquery_defs =
  profiles_subquery_def links_subquery_def cases_subquery_def threads_subquery_def

lemmas demo_defs =
  demo_db_def demo_circle_def demo_profile_def demo_case_def demo_link_def demo_thread_def
  demo_message_def demo_document_def demo_audit_def demo_link3_def demo_link3_again_def

section \<open>Looking a row up by its primary key\<close>

lemma filter_key_distinct:
  "distinct (map key xs) \<Longrightarrow>
   filter (\<lambda>p. key p = k) xs = (case find (\<lambda>p. key p = k) xs of None \<Rightarrow> [] | Some p \<Rightarrow> [p])"
proof (induction xs)
  case Nil
  then show ?case by simp
next
  case (Cons x xs)
  show ?case
  proof (cases "key x = k")
    case True
    from Cons.prems have "key x \<notin> key ` set xs" by simp
    with True have "\<forall>p\<in>set xs. key p \<noteq> k" by (metis imageI)
    then have "filter (\<lambda>p. key p = k) xs = []"
      by (simp add: filter_empty_conv)
    with True show ?thesis by simp
  next
    case False
    with Cons show ?thesis by simp
  qed
qed

lemma filter_conj_key_distinct:
  "distinct (map key xs) \<Longrightarrow>
   filter (\<lambda>p. key p = k \<and> P p) xs =
     (case find (\<lambda>p. key p = k) xs of None \<Rightarrow> [] | Some p \<Rightarrow> if P p then [p] else [])"
proof -
  assume d: "distinct (map key xs)"
  have "filter (\<lambda>p. key p = k \<and> P p) xs = filter P (filter (\<lambda>p. key p = k) xs)"
    by (simp add: conj_commute)
  also have "\<dots> = (case find (\<lambda>p. key p = k) xs of None \<Rightarrow> [] | Some p \<Rightarrow> if P p then [p] else [])"
    by (simp add: filter_key_distinct [OF d] split: option.splits)
  finally show ?thesis .
qed

lemma visible_profiles_filter:
  "filter (\<lambda>p. up_id p = uid \<and> P p) (visible_profiles db uid) =
   filter (\<lambda>p. up_id p = uid \<and> P p) (user_profiles db)"
  by (auto simp: visible_profiles_def intro: filter_cong)

lemma my_circles_profile:
  "pk_user_profiles db \<Longrightarrow>
   my_circles db uid =
     (case profile_of db (Authenticated uid) of None \<Rightarrow> [] | Some p \<Rightarrow> [up_circle_id p])"
  using visible_profiles_filter [of uid "\<lambda>p. True" db]
  by (simp add: my_circles_def pk_user_profiles_def filter_key_distinct split: option.splits)

lemma profile_filter_role:
  "pk_user_profiles db \<Longrightarrow>
   filter (\<lambda>p. up_id p = uid \<and> P p) (visible_profiles db uid) =
     (case profile_of db (Authenticated uid) of None \<Rightarrow> [] | Some p \<Rightarrow> if P p then [p] else [])"
  by (simp add: visible_profiles_filter pk_user_profiles_def filter_conj_key_distinct)

section \<open>Which policies the database can expand\<close>

lemma policies_rewrite_cases:
  "\<not> policies_rewrite Select_cmd Cases" "policies_rewrite Insert_cmd Cases"
  "policies_rewrite Update_cmd Cases" "policies_rewrite Delete_cmd Cases"
  by (simp_all add: policies_rewrite_def subquery_defs)

lemma policies_rewrite_case_circles:
  "\<not> policies_rewrite Select_cmd Case_circles" "policies_rewrite Insert_cmd Case_circles"
  "policies_rewrite Update_cmd Case_circles" "policies_rewrite Delete_cmd Case_circles"
  by (simp_all add: policies_rewrite_def subquery_defs)

lemma policies_rewrite_case_threads:
  "\<not> policies_rewrite Select_cmd Case_threads" "\<not> policies_rewrite Insert_cmd Case_threads"
  "policies_rewrite Update_cmd Case_threads" "policies_rewrite Delete_cmd Case_threads"
  by (simp_all add: policies_rewrite_def subquery_defs)

lemma policies_rewrite_case_messages:
  "\<not> policies_rewrite Select_cmd Case_messages" "\<not> policies_rewrite Insert_cmd Case_messages"
  "policies_rewrite Update_cmd Case_messages" "policies_rewrite Delete_cmd Case_messages"
  by (simp_all add: policies_rewrite_def subquery_defs)

lemma policies_rewrite_case_documents:
  "\<not> policies_rewrite Select_cmd Case_documents" "\<not> policies_rewrite Insert_cmd Case_documents"
  "policies_rewrite Update_cmd Case_documents" "policies_rewrite Delete_cmd Case_documents"
  by (simp_all add: policies_rewrite_def subquery_defs)

lemma policies_rewrite_others:
  "policies_rewrite cmd User_profiles" "policies_rewrite cmd Judicial_circles"
  "policies_rewrite cmd Audit_logs"
  by (cases cmd; simp add: policies_rewrite_def subquery_defs)+

lemmas policies_rewrite_simps =
  policies_rewrite_cases policies_rewrite_case_circles policies_rewrite_case_threads
  policies_rewrite_case_messages policies_rewrite_case_documents policies_rewrite_others

lemma select_denied:
  "\<not> rls_permits db a Select_cmd (Case_row c)" "\<not> rls_permits db a Select_cmd (Link_row l)"
  "\<not> rls_permits db a Select_cmd (Thread_row t)" "\<not> rls_permits db a Select_cmd (Message_row m)"
  "\<not> rls_permits db a Select_cmd (Document_row d)"
  by (cases a; simp add: policies_rewrite_simps)+

lemma insert_denied:
  "\<not> rls_permits db a Insert_cmd (Link_row l)" "\<not> rls_permits db a Insert_cmd (Thread_row t)"
  "\<not> rls_permits db a Insert_cmd (Message_row m)" "\<not> rls_permits db a Insert_cmd (Document_row d)"
  "\<not> rls_permits db a Insert_cmd (Profile_row p)" "\<not> rls_permits db a Insert_cmd (Circle_row j)"
  by (cases a; simp add: policies_rewrite_simps)+

lemma no_delete: "\<not> rls_permits db a Delete_cmd r"
  by (cases a; cases r) simp_all

lemma no_link_update: "\<not> rls_permits db a Update_cmd (Link_row l)"
  by (cases a) simp_all

lemma no_message_update: "\<not> rls_permits db a Update_cmd (Message_row m)"
  by (cases a) simp_all

lemma select_raises:
  "select_row db (Authenticated uid) (Case_row c) = Inl Infinite_recursion"
  "select_row db (Authenticated uid) (Link_row l) = Inl Infinite_recursion"
  "select_row db (Authenticated uid) (Thread_row t) = Inl Infinite_recursion"
  "select_row db (Authenticated uid) (Message_row m) = Inl Infinite_recursion"
  "select_row db (Authenticated uid) (Document_row d) = Inl Infinite_recursion"
  by (simp_all add: select_row_def policies_rewrite_simps)



section \<open>The policies against the rules of the specification\<close>

lemma accessible_case_entitled:
  "accessible_case db uid c = (\<exists>h. Some h \<in> set (my_circles db uid) \<and> h \<in> entitledCircles db c)"
  unfolding accessible_case_def entitledCircles_def sql_in_def
  by (simp add: image_iff) metis

lemma case_select_expression:
  "pk_user_profiles db \<Longrightarrow>
   policy_expr db uid Select_cmd (Case_row c) = spec_case_view db (Authenticated uid) c"
  by (simp add: accessible_case_entitled my_circles_profile spec_case_view_def
      homeCircle_def split: option.splits)

lemma accessible_case_ids_iff:
  "pk_cases db \<Longrightarrow> c \<in> set (cases db) \<Longrightarrow>
   cs_id c \<in> set (accessible_case_ids db uid) = accessible_case db uid c"
proof -
  assume pk: "pk_cases db" and c: "c \<in> set (cases db)"
  have same: "c' = c" if "c' \<in> set (cases db)" "cs_id c' = cs_id c" for c'
    using pk c that by (simp add: pk_cases_def inj_on_def distinct_map)
  show ?thesis
  proof
    assume "cs_id c \<in> set (accessible_case_ids db uid)"
    then obtain c' where "c' \<in> set (cases db)" "accessible_case db uid c'" "cs_id c' = cs_id c"
      unfolding accessible_case_ids_def by auto
    with same show "accessible_case db uid c" by blast
  next
    assume "accessible_case db uid c"
    with c show "cs_id c \<in> set (accessible_case_ids db uid)"
      unfolding accessible_case_ids_def by auto
  qed
qed

lemma accessible_thread_ids_iff:
  "pk_case_threads db \<Longrightarrow> t \<in> set (case_threads db) \<Longrightarrow>
   ct_id t \<in> set (accessible_thread_ids db uid) = (ct_case_id t \<in> set (accessible_case_ids db uid))"
proof -
  assume pk: "pk_case_threads db" and t: "t \<in> set (case_threads db)"
  have same: "t' = t" if "t' \<in> set (case_threads db)" "ct_id t' = ct_id t" for t'
    using pk t that by (simp add: pk_case_threads_def inj_on_def distinct_map)
  show ?thesis
  proof
    assume "ct_id t \<in> set (accessible_thread_ids db uid)"
    then obtain t' where "t' \<in> set (case_threads db)"
      "ct_case_id t' \<in> set (accessible_case_ids db uid)" "ct_id t' = ct_id t"
      unfolding accessible_thread_ids_def by auto
    with same show "ct_case_id t \<in> set (accessible_case_ids db uid)" by blast
  next
    assume "ct_case_id t \<in> set (accessible_case_ids db uid)"
    with t show "ct_id t \<in> set (accessible_thread_ids db uid)"
      unfolding accessible_thread_ids_def by auto
  qed
qed

lemma message_expression_inherits:
  assumes "pk_cases db" and "pk_case_threads db"
    and "c \<in> set (cases db)" and "t \<in> set (case_threads db)"
    and "ct_case_id t = cs_id c" and "cm_thread_id m = ct_id t"
  shows "policy_expr db uid Select_cmd (Message_row m) = policy_expr db uid Select_cmd (Case_row c)"
proof -
  have "cm_thread_id m \<in> set (accessible_thread_ids db uid)
        = (cs_id c \<in> set (accessible_case_ids db uid))"
    using assms by (simp add: accessible_thread_ids_iff)
  also have "\<dots> = accessible_case db uid c"
    using assms by (simp add: accessible_case_ids_iff)
  finally show ?thesis by simp
qed

lemma case_update_policy:
  "pk_user_profiles db \<Longrightarrow>
   rls_permits db a Update_cmd (Case_row c) = spec_manage_collaboration db a c"
proof (cases a)
  case Anon
  then show ?thesis by (simp add: spec_manage_collaboration_def actor_role_def)
next
  case (Authenticated uid)
  assume pk: "pk_user_profiles db"
  show ?thesis
    unfolding Authenticated
    by (auto simp: policies_rewrite_simps profile_filter_role [OF pk] sql_in_def
        spec_manage_collaboration_def actor_role_def homeCircle_def split: option.splits)
qed

lemma case_insert_policy:
  "pk_user_profiles db \<Longrightarrow>
   rls_permits db a Insert_cmd (Case_row c) =
     (actor_role db a = Some Judge \<or> actor_role db a = Some Clerk)"
proof (cases a)
  case Anon
  then show ?thesis by (simp add: actor_role_def)
next
  case (Authenticated uid)
  assume pk: "pk_user_profiles db"
  show ?thesis
    unfolding Authenticated
    by (auto simp: policies_rewrite_simps profile_filter_role [OF pk] actor_role_def
        split: option.splits)
qed

lemma exec_insert_link: "exec db a (Insert (Link_row l)) = Inl Insufficient_privilege"
  by (cases a) (simp_all add: policies_rewrite_simps)

text \<open>
  C1 holds of the policy as it is written (\<open>case_select_expression\<close>: the expression is
  true exactly when the caller's home circle belongs to the entitled-circle set) and
  fails of the database. The \<open>SELECT\<close> policy on \<open>cases\<close> sub-selects \<open>case_circles\<close>, whose
  \<open>SELECT\<close> policy sub-selects \<open>cases\<close> and \<open>case_circles\<close> again, so every \<open>SELECT\<close> on
  \<open>cases\<close> by an authenticated caller raises 42P17. The clerk of circle 2, which is
  linked to the case, is entitled and does not see the case.
\<close>

theorem case_view_raises:
  "spec_case_view demo_db (Authenticated 11) demo_case
   \<and> select_row demo_db (Authenticated 11) (Case_row demo_case) = Inl Infinite_recursion
   \<and> \<not> rls_permits demo_db (Authenticated 11) Select_cmd (Case_row demo_case)"
  by (simp add: select_raises select_denied spec_case_view_def homeCircle_def
      entitledCircles_def demo_defs)

text \<open>
  C2, as the claim states it, fails: the judge of the case's primary circle satisfies
  the condition of the claim and may not insert a collaboration link.
\<close>

theorem manage_collaboration_counterexample:
  "spec_manage_collaboration demo_db (Authenticated 10) demo_case
   \<and> \<not> rls_permits demo_db (Authenticated 10) Insert_cmd (Link_row demo_link3)"
  by (simp add: spec_manage_collaboration_def actor_role_def homeCircle_def demo_defs)

text \<open>
  C2, amended. Adding a collaboration link is denied to every caller: \<open>case_circles\<close> has
  row-level security enabled and a \<open>SELECT\<close> policy only, so the insert raises. The
  condition of the claim (role judge or clerk, home circle equal to the primary circle
  of the case) decides the \<open>UPDATE\<close> of the case record, and nothing else.
\<close>

theorem manage_collaboration_denied:
  "pk_user_profiles db \<Longrightarrow>
   \<not> rls_permits db a Insert_cmd (Link_row l)
   \<and> exec db a (Insert (Link_row l)) = Inl Insufficient_privilege
   \<and> rls_permits db a Update_cmd (Case_row c) = spec_manage_collaboration db a c"
  by (simp only: insert_denied exec_insert_link case_update_policy simp_thms)

theorem manage_collaboration_denied_witness:
  "\<not> rls_permits demo_db (Authenticated 10) Insert_cmd (Link_row demo_link3)
   \<and> exec demo_db (Authenticated 10) (Insert (Link_row demo_link3)) = Inl Insufficient_privilege
   \<and> rls_permits demo_db (Authenticated 10) Update_cmd (Case_row demo_case)"
proof -
  have pk: "pk_user_profiles demo_db"
    by (simp add: pk_user_profiles_def demo_defs)
  have "spec_manage_collaboration demo_db (Authenticated 10) demo_case"
    by (simp add: spec_manage_collaboration_def actor_role_def homeCircle_def demo_defs)
  with manage_collaboration_denied [OF pk, of "Authenticated 10" demo_link3 demo_case]
  show ?thesis by blast
qed

text \<open>
  C3, as the claim states it, fails: a caller that is not authenticated may not insert
  an audit entry, since the one \<open>INSERT\<close> policy on \<open>audit_logs\<close> is declared
  \<open>TO authenticated\<close>.
\<close>

theorem audit_insert_counterexample:
  "\<not> rls_permits demo_db Anon Insert_cmd (Audit_row demo_audit)"
  by simp

text \<open>
  C3, amended. The policy admits the insert of any audit entry by any authenticated
  caller, with or without a profile, whatever its role and circle, and by no other
  caller. A caller without a token writes an audit entry through \<open>log_audit_event\<close>,
  which is not subject to the policies: with a fresh id, and the caller's id (if any)
  among the users, the call appends the entry.
\<close>

theorem audit_insert_for_authenticated:
  "rls_permits db a Insert_cmd (Audit_row r) = (a \<noteq> Anon)
   \<and> (new_id \<notin> set (map al_id (audit_logs db)) \<longrightarrow> fk_present (auth_uid a) (auth_users db) \<longrightarrow>
        exec db a (Log_audit_event new_id now p_action p_type p_id p_details) =
          Inr (db\<lparr>audit_logs := audit_logs db @
                 [\<lparr>al_id = new_id, al_user_id = auth_uid a, al_action = p_action,
                   al_resource_type = p_type, al_resource_id = p_id, al_details = p_details,
                   al_ip_address = None, al_user_agent = None, al_created_at = Some now\<rparr>]\<rparr>))"
proof
  show "rls_permits db a Insert_cmd (Audit_row r) = (a \<noteq> Anon)"
    by (cases a) (simp_all add: policies_rewrite_simps)
  show "new_id \<notin> set (map al_id (audit_logs db)) \<longrightarrow> fk_present (auth_uid a) (auth_users db) \<longrightarrow>
        exec db a (Log_audit_event new_id now p_action p_type p_id p_details) =
          Inr (db\<lparr>audit_logs := audit_logs db @
                 [\<lparr>al_id = new_id, al_user_id = auth_uid a, al_action = p_action,
                   al_resource_type = p_type, al_resource_id = p_id, al_details = p_details,
                   al_ip_address = None, al_user_agent = None, al_created_at = Some now\<rparr>]\<rparr>)"
    by (simp add: log_audit_event_def audit_logs_violation_def)
qed

theorem audit_insert_for_authenticated_witness:
  "rls_permits demo_db (Authenticated 14) Insert_cmd (Audit_row demo_audit)
   \<and> audit_logs (state_after demo_db
        (exec demo_db Anon (Log_audit_event 600 6 ''denied'' ''case'' (Some 100) None)))
      = [demo_audit]"
  using audit_insert_for_authenticated [where db = demo_db and a = "Authenticated 14"
      and r = demo_audit]
    audit_insert_for_authenticated [where db = demo_db and a = Anon and new_id = 600
      and now = 6 and p_action = "''denied''" and p_type = "''case''" and p_id = "Some 100"
      and p_details = None]
  by (simp add: state_after_def fk_present_def demo_defs)



text \<open>
  C6 fails of the database in its first half, by the defect of C1. The clerk of circle
  2 is a member of a circle that is linked to the case and is not its primary circle:
  its \<open>SELECT\<close> of the case raises 42P17 where the claim says it is allowed. The second
  half holds: the \<open>UPDATE\<close> policy does not admit the case for the clerk, and its
  \<open>UPDATE\<close> of the case by id raises.
\<close>

theorem collaborator_view_raises:
  "homeCircle demo_db (Authenticated 11) = Some 2
   \<and> cs_primary_circle_id demo_case = 1
   \<and> demo_link \<in> set (case_circles demo_db)
   \<and> cc_case_id demo_link = cs_id demo_case \<and> cc_circle_id demo_link = 2
   \<and> select_row demo_db (Authenticated 11) (Case_row demo_case) = Inl Infinite_recursion
   \<and> \<not> rls_permits demo_db (Authenticated 11) Select_cmd (Case_row demo_case)
   \<and> \<not> rls_permits demo_db (Authenticated 11) Update_cmd (Case_row demo_case)
   \<and> exec demo_db (Authenticated 11) (Update 100 (Case_row demo_case_closed))
       = Inl Infinite_recursion"
proof -
  have "\<not> rls_permits demo_db (Authenticated 11) Update_cmd (Case_row demo_case)"
    by (simp add: policies_rewrite_simps visible_profiles_def sql_in_def demo_defs)
  moreover have "exec demo_db (Authenticated 11) (Update 100 (Case_row demo_case_closed))
       = Inl Infinite_recursion"
    by (simp add: policies_rewrite_simps)
  ultimately show ?thesis
    by (simp add: select_raises select_denied homeCircle_def demo_defs)
qed

text \<open>
  C7. Viewing audit entries is allowed exactly when the caller's role is judge. The
  circle of the caller plays no part: its profile may name any circle or none.
\<close>

theorem audit_view_iff_judge:
  "pk_user_profiles db \<Longrightarrow> rls_permits db a Select_cmd (Audit_row r) = spec_audit_view db a"
proof (cases a)
  case Anon
  then show ?thesis by (simp add: spec_audit_view_def actor_role_def)
next
  case (Authenticated uid)
  assume pk: "pk_user_profiles db"
  show ?thesis
    unfolding Authenticated
    by (auto simp: policies_rewrite_simps profile_filter_role [OF pk] spec_audit_view_def
        actor_role_def split: option.splits)
qed

theorem audit_view_iff_judge_witness:
  "rls_permits demo_db (Authenticated 10) Select_cmd (Audit_row demo_audit)
   \<and> rls_permits demo_db (Authenticated 13) Select_cmd (Audit_row demo_audit)
   \<and> \<not> rls_permits demo_db (Authenticated 11) Select_cmd (Audit_row demo_audit)
   \<and> \<not> rls_permits demo_db (Authenticated 12) Select_cmd (Audit_row demo_audit)"
proof -
  have pk: "pk_user_profiles demo_db"
    by (simp add: pk_user_profiles_def demo_defs)
  have "spec_audit_view demo_db (Authenticated 10)" "spec_audit_view demo_db (Authenticated 13)"
    "\<not> spec_audit_view demo_db (Authenticated 11)" "\<not> spec_audit_view demo_db (Authenticated 12)"
    by (simp_all add: spec_audit_view_def actor_role_def demo_defs)
  with audit_view_iff_judge [OF pk, of "Authenticated 10" demo_audit]
    audit_view_iff_judge [OF pk, of "Authenticated 13" demo_audit]
    audit_view_iff_judge [OF pk, of "Authenticated 11" demo_audit]
    audit_view_iff_judge [OF pk, of "Authenticated 12" demo_audit]
  show ?thesis by blast
qed

section \<open>Callers without a home circle\<close>

text \<open>
  C10, as the claim states it, fails: a judge whose profile has no home circle may
  create a case, for the \<open>INSERT\<close> policy on \<open>cases\<close> reads the role only.
\<close>

theorem no_home_circle_counterexample:
  "homeCircle demo_db (Authenticated 13) = None
   \<and> rls_permits demo_db (Authenticated 13) Insert_cmd (Case_row demo_case)"
  by (simp add: policies_rewrite_simps visible_profiles_def homeCircle_def demo_defs)

text \<open>
  C10, amended. A caller with no profile row, or whose profile has no home circle, is
  denied view on every case, thread, message and document, and create on every thread,
  message and document. Creating a case does not depend on the circle: it is allowed
  exactly when the caller's role is judge or clerk, hence denied without a profile.
\<close>

theorem no_home_circle_denied:
  assumes "pk_user_profiles db" and "homeCircle db a = None"
  shows "\<not> rls_permits db a Select_cmd (Case_row c)
    \<and> \<not> rls_permits db a Select_cmd (Thread_row t)
    \<and> \<not> rls_permits db a Select_cmd (Message_row m)
    \<and> \<not> rls_permits db a Select_cmd (Document_row d)
    \<and> \<not> rls_permits db a Insert_cmd (Thread_row t)
    \<and> \<not> rls_permits db a Insert_cmd (Message_row m)
    \<and> \<not> rls_permits db a Insert_cmd (Document_row d)
    \<and> rls_permits db a Insert_cmd (Case_row c)
        = (actor_role db a = Some Judge \<or> actor_role db a = Some Clerk)
    \<and> (profile_of db a = None \<longrightarrow> \<not> rls_permits db a Insert_cmd (Case_row c))"
proof -
  have "profile_of db a = None \<longrightarrow> \<not> rls_permits db a Insert_cmd (Case_row c)"
    by (simp add: case_insert_policy [OF assms(1)] actor_role_def)
  then show ?thesis
    by (simp only: select_denied insert_denied case_insert_policy [OF assms(1)] simp_thms)
qed

theorem no_home_circle_denied_witness:
  "pk_user_profiles demo_db \<and> homeCircle demo_db (Authenticated 14) = None
   \<and> homeCircle demo_db (Authenticated 13) = None
   \<and> \<not> rls_permits demo_db (Authenticated 14) Select_cmd (Case_row demo_case)
   \<and> \<not> rls_permits demo_db (Authenticated 14) Insert_cmd (Case_row demo_case)
   \<and> \<not> rls_permits demo_db (Authenticated 13) Select_cmd (Message_row demo_message)
   \<and> \<not> rls_permits demo_db (Authenticated 13) Insert_cmd (Document_row demo_document)"
proof -
  have pk: "pk_user_profiles demo_db"
    by (simp add: pk_user_profiles_def demo_defs)
  have h14: "homeCircle demo_db (Authenticated 14) = None"
    and h13: "homeCircle demo_db (Authenticated 13) = None"
    and p14: "profile_of demo_db (Authenticated 14) = None"
    by (simp_all add: homeCircle_def demo_defs)
  from pk h14 h13 p14
    no_home_circle_denied [OF pk h14, of demo_case demo_thread demo_message demo_document]
    no_home_circle_denied [OF pk h13, of demo_case demo_thread demo_message demo_document]
  show ?thesis by blast
qed


section \<open>What the statements of a caller can change\<close>

lemma update_table_hidden:
  "update_table key violation referenced (\<lambda>r. False) chk k new rs = Inr rs"
  by (simp add: update_table_def)

lemma map_sum_Inr_iff: "map_sum f g x = Inr y \<longleftrightarrow> (\<exists>z. x = Inr z \<and> y = g z)"
  by (cases x) auto

lemma where_delete_hidden: "where_permits db a Delete_cmd = (\<lambda>r. False)"
  by (rule ext) (simp add: where_permits_def no_delete)

lemma where_update_hidden:
  "\<not> where_permits db a Update_cmd (Case_row c)" "\<not> where_permits db a Update_cmd (Link_row l)"
  "\<not> where_permits db a Update_cmd (Thread_row t)" "\<not> where_permits db a Update_cmd (Message_row m)"
  "\<not> where_permits db a Update_cmd (Document_row d)"
  by (simp_all add: where_permits_def select_denied)

lemma delete_row_hidden: "delete_row db (\<lambda>r. False) t k = Inr db"
  by (cases t) simp_all

lemma exec_delete_unchanged: "state_after db (exec db a (Delete t k)) = db"
  by (simp add: state_after_def where_delete_hidden delete_row_hidden)

lemma exec_delete_Inr: "exec db a (Delete t k) = Inr db' \<Longrightarrow> db' = db"
  using exec_delete_unchanged [of db a t k] by (simp add: state_after_def)

lemma exec_insert_case_circles:
  "exec db a (Insert r) = Inr db' \<Longrightarrow> case_circles db' = case_circles db"
  by (cases r) (auto simp: insert_denied split: if_splits option.splits)

lemma exec_update_case_circles:
  "exec db a (Update k new) = Inr db' \<Longrightarrow> case_circles db' = case_circles db"
  by (cases new)
    (auto simp: map_sum_Inr_iff where_update_hidden update_table_hidden split: if_splits)

lemma exec_log_case_circles:
  "exec db a (Log_audit_event i n x y z w) = Inr db' \<Longrightarrow> case_circles db' = case_circles db"
  by (auto simp: log_audit_event_def split: option.splits)

lemma exec_case_circles: "exec db a s = Inr db' \<Longrightarrow> case_circles db' = case_circles db"
proof (cases s)
  case (Insert r)
  assume "exec db a s = Inr db'"
  with Insert show ?thesis by (simp only: exec_insert_case_circles)
next
  case (Update k new)
  assume "exec db a s = Inr db'"
  with Update show ?thesis by (simp only: exec_update_case_circles)
next
  case (Delete t k)
  assume "exec db a s = Inr db'"
  with Delete exec_delete_Inr [of db a t k db'] show ?thesis by simp
next
  case (Log_audit_event i n x y z w)
  assume "exec db a s = Inr db'"
  with Log_audit_event show ?thesis by (simp only: exec_log_case_circles)
qed

lemma exec_insert_case_messages:
  "exec db a (Insert r) = Inr db' \<Longrightarrow> \<exists>new. case_messages db' = case_messages db @ new"
  by (cases r) (auto split: if_splits option.splits)

lemma exec_update_case_messages:
  "exec db a (Update k new) = Inr db' \<Longrightarrow> case_messages db' = case_messages db"
  by (cases new)
    (auto simp: map_sum_Inr_iff where_update_hidden update_table_hidden split: if_splits)

lemma exec_log_case_messages:
  "exec db a (Log_audit_event i n x y z w) = Inr db' \<Longrightarrow> case_messages db' = case_messages db"
  by (auto simp: log_audit_event_def split: option.splits)

lemma exec_case_messages:
  "exec db a s = Inr db' \<Longrightarrow> \<exists>new. case_messages db' = case_messages db @ new"
proof (cases s)
  case (Insert r)
  assume "exec db a s = Inr db'"
  with Insert show ?thesis by (simp only: exec_insert_case_messages)
next
  case (Update k new)
  assume "exec db a s = Inr db'"
  with Update have "case_messages db' = case_messages db"
    by (simp only: exec_update_case_messages)
  then show ?thesis by simp
next
  case (Delete t k)
  assume "exec db a s = Inr db'"
  with Delete exec_delete_Inr [of db a t k db'] show ?thesis by simp
next
  case (Log_audit_event i n x y z w)
  assume "exec db a s = Inr db'"
  with Log_audit_event have "case_messages db' = case_messages db"
    by (simp only: exec_log_case_messages)
  then show ?thesis by simp
qed

lemma exec_update_message: "state_after db (exec db a (Update k (Message_row m))) = db"
  by (simp add: state_after_def where_update_hidden update_table_hidden)

text \<open>
  C9, as the claim states it, fails in its first half: the clerk of the collaborating
  circle is entitled on the case of the message, no \<open>UPDATE\<close> policy admits the message
  for it, and its \<open>UPDATE\<close> setting \<open>edited_at\<close> raises and changes nothing.
\<close>

theorem message_edit_counterexample:
  "spec_case_view demo_db (Authenticated 11) demo_case
   \<and> ct_case_id demo_thread = cs_id demo_case \<and> cm_thread_id demo_message = ct_id demo_thread
   \<and> \<not> rls_permits demo_db (Authenticated 11) Update_cmd (Message_row demo_message)
   \<and> exec demo_db (Authenticated 11)
        (Update 400 (Message_row (demo_message\<lparr>cm_edited_at := Some 9\<rparr>)))
       = Inl Infinite_recursion
   \<and> state_after demo_db (exec demo_db (Authenticated 11)
        (Update 400 (Message_row (demo_message\<lparr>cm_edited_at := Some 9\<rparr>)))) = demo_db"
proof -
  have "exec demo_db (Authenticated 11)
        (Update 400 (Message_row (demo_message\<lparr>cm_edited_at := Some 9\<rparr>)))
       = Inl Infinite_recursion"
    by (simp add: policies_rewrite_simps)
  moreover have "state_after demo_db (exec demo_db (Authenticated 11)
        (Update 400 (Message_row (demo_message\<lparr>cm_edited_at := Some 9\<rparr>)))) = demo_db"
    by (rule exec_update_message)
  moreover have "spec_case_view demo_db (Authenticated 11) demo_case"
    by (simp add: spec_case_view_def homeCircle_def entitledCircles_def demo_defs)
  moreover have "ct_case_id demo_thread = cs_id demo_case"
    "cm_thread_id demo_message = ct_id demo_thread"
    by (simp_all add: demo_defs)
  ultimately show ?thesis
    by (simp only: no_message_update simp_thms)
qed

text \<open>
  C9, amended. No caller may edit or delete a message: \<open>case_messages\<close> has policies for
  \<open>SELECT\<close> and \<open>INSERT\<close> only, so no \<open>UPDATE\<close> or \<open>DELETE\<close> policy admits a message, and an
  \<open>UPDATE\<close> (such as one setting \<open>edited_at\<close>) or a \<open>DELETE\<close> of a message leaves the
  database as it was; whatever statement a caller runs, the stored messages stay as
  they are and in their place.
\<close>

theorem message_neither_edited_nor_deleted:
  "\<not> rls_permits db a Update_cmd (Message_row m)
   \<and> \<not> rls_permits db a Delete_cmd (Message_row m)
   \<and> state_after db (exec db a (Update k (Message_row m))) = db
   \<and> state_after db (exec db a (Delete Case_messages k)) = db
   \<and> (\<exists>new. case_messages (state_after db (exec db a s)) = case_messages db @ new)"
proof -
  have "\<exists>new. case_messages (state_after db (exec db a s)) = case_messages db @ new"
  proof (cases "exec db a s")
    case (Inl e)
    then show ?thesis by (simp add: state_after_def)
  next
    case (Inr db')
    with exec_case_messages [OF Inr] show ?thesis by (simp add: state_after_def)
  qed
  then show ?thesis
    by (simp only: no_message_update no_delete exec_update_message exec_delete_unchanged
        simp_thms)
qed

theorem message_neither_edited_nor_deleted_witness:
  "state_after demo_db (exec demo_db (Authenticated 11) (Delete Case_messages 400)) = demo_db
   \<and> state_after demo_db (exec demo_db Anon (Update 400 (Message_row demo_message))) = demo_db
   \<and> \<not> rls_permits demo_db (Authenticated 11) Delete_cmd (Message_row demo_message)"
  using message_neither_edited_nor_deleted [of demo_db "Authenticated 11" demo_message 400]
    message_neither_edited_nor_deleted [of demo_db Anon demo_message 400]
  by blast

section \<open>Collaboration links\<close>

lemma insert_link_Inr:
  "insert_row db (Link_row l) = Inr db' \<Longrightarrow>
   case_circles_violation db (case_circles db) l = None
   \<and> db' = db\<lparr>case_circles := case_circles db @ [l]\<rparr>"
  by (auto split: option.splits)

lemma link_pair_absent:
  "case_circles_violation db ls l = None \<Longrightarrow>
   filter (\<lambda>x. cc_case_id x = cc_case_id l \<and> cc_circle_id x = cc_circle_id l) ls = []"
  by (auto simp: case_circles_violation_def filter_empty_conv image_iff split: if_splits)

text \<open>
  C4, as the claim states it, fails: inserting the pair (case 100, circle 3) a second
  time, under a fresh id, raises a unique violation.
\<close>

theorem second_link_insert_counterexample:
  "insert_row demo_db (Link_row demo_link3) = Inr (demo_db\<lparr>case_circles := [demo_link, demo_link3]\<rparr>)
   \<and> insert_row (demo_db\<lparr>case_circles := [demo_link, demo_link3]\<rparr>) (Link_row demo_link3_again)
       = Inl Unique_violation"
  by (simp add: case_circles_violation_def demo_defs)

text \<open>
  C4, amended. After a collaboration link for (case, circle) has been inserted, a second
  insert of the same pair is rejected by \<open>UNIQUE(case_id, circle_id)\<close> with a unique
  violation; it leaves the database as it was, so the entitled-circle set after the two
  inserts is the set after the first, which is the set before with the circle added,
  and the table holds the pair once.
\<close>

theorem second_link_insert_rejected:
  assumes "insert_row db (Link_row l) = Inr db'"
    and "cc_case_id l' = cc_case_id l" and "cc_circle_id l' = cc_circle_id l"
  shows "insert_row db' (Link_row l') = Inl Unique_violation
    \<and> entitledCircles (state_after db' (insert_row db' (Link_row l'))) c = entitledCircles db' c
    \<and> entitledCircles db' c =
        (if cs_id c = cc_case_id l then insert (cc_circle_id l) (entitledCircles db c)
         else entitledCircles db c)
    \<and> length (filter (\<lambda>x. cc_case_id x = cc_case_id l \<and> cc_circle_id x = cc_circle_id l)
         (case_circles db')) = 1"
proof -
  from insert_link_Inr [OF assms(1)]
  have ok: "case_circles_violation db (case_circles db) l = None"
    and db': "db' = db\<lparr>case_circles := case_circles db @ [l]\<rparr>"
    by simp_all
  have rej: "insert_row db' (Link_row l') = Inl Unique_violation"
    using assms(2,3) by (simp add: db' case_circles_violation_def)
  have ent: "entitledCircles db' c =
        (if cs_id c = cc_case_id l then insert (cc_circle_id l) (entitledCircles db c)
         else entitledCircles db c)"
    by (auto simp: db' entitledCircles_def)
  have once: "length (filter (\<lambda>x. cc_case_id x = cc_case_id l \<and> cc_circle_id x = cc_circle_id l)
         (case_circles db')) = 1"
    by (simp add: db' link_pair_absent [OF ok])
  from rej ent once show ?thesis
    by (simp add: state_after_def)
qed

theorem second_link_insert_rejected_witness:
  "insert_row (demo_db\<lparr>case_circles := [demo_link, demo_link3]\<rparr>) (Link_row demo_link3_again)
     = Inl Unique_violation
   \<and> entitledCircles (demo_db\<lparr>case_circles := [demo_link, demo_link3]\<rparr>) demo_case = {1, 2, 3}"
proof -
  have h: "insert_row demo_db (Link_row demo_link3)
      = Inr (demo_db\<lparr>case_circles := [demo_link, demo_link3]\<rparr>)"
    "cc_case_id demo_link3_again = cc_case_id demo_link3"
    "cc_circle_id demo_link3_again = cc_circle_id demo_link3"
    by (simp_all add: case_circles_violation_def demo_defs)
  have e: "entitledCircles demo_db demo_case = {1, 2}"
    by (simp add: entitledCircles_def demo_defs)
  have "cs_id demo_case = cc_case_id demo_link3" "cc_circle_id demo_link3 = 3"
    by (simp_all add: demo_defs)
  with e second_link_insert_rejected [OF h, of demo_case]
  show ?thesis by auto
qed

section \<open>Histories\<close>

lemma exec_insert_cases:
  "exec db a (Insert r) = Inr db' \<Longrightarrow> set (cases db) \<subseteq> set (cases db')"
  by (cases r) (auto split: if_splits option.splits)

lemma exec_update_cases:
  "exec db a (Update k new) = Inr db' \<Longrightarrow> cases db' = cases db"
  by (cases new)
    (auto simp: map_sum_Inr_iff where_update_hidden update_table_hidden split: if_splits)

lemma exec_log_cases:
  "exec db a (Log_audit_event i n x y z w) = Inr db' \<Longrightarrow> cases db' = cases db"
  by (auto simp: log_audit_event_def split: option.splits)

lemma exec_cases: "exec db a s = Inr db' \<Longrightarrow> set (cases db) \<subseteq> set (cases db')"
proof (cases s)
  case (Insert r)
  assume "exec db a s = Inr db'"
  with Insert show ?thesis by (simp only: exec_insert_cases)
next
  case (Update k new)
  assume "exec db a s = Inr db'"
  with Update have "cases db' = cases db" by (simp only: exec_update_cases)
  then show ?thesis by simp
next
  case (Delete t k)
  assume "exec db a s = Inr db'"
  with Delete exec_delete_Inr [of db a t k db'] show ?thesis by simp
next
  case (Log_audit_event i n x y z w)
  assume "exec db a s = Inr db'"
  with Log_audit_event have "cases db' = cases db" by (simp only: exec_log_cases)
  then show ?thesis by simp
qed

lemma step_invariant:
  "set (cases db) \<subseteq> set (cases (state_after db (exec db a s)))
   \<and> case_circles (state_after db (exec db a s)) = case_circles db"
proof (cases "exec db a s")
  case (Inl e)
  then show ?thesis by (simp add: state_after_def)
next
  case (Inr db')
  with exec_cases [OF Inr] exec_case_circles [OF Inr] show ?thesis
    by (simp add: state_after_def)
qed

lemma run_invariant:
  "set (cases db) \<subseteq> set (cases (run db ops)) \<and> case_circles (run db ops) = case_circles db"
proof (induction ops arbitrary: db)
  case Nil
  show ?case by simp
next
  case (Cons op ops)
  obtain a s where op: "op = (a, s)" by (cases op)
  from Cons.IH [of "state_after db (exec db a s)"] step_invariant [of db a s]
  show ?case
    unfolding op by auto
qed

lemma same_primary_circle:
  assumes "pk_user_profiles db"
    and "rls_permits db a Update_cmd (Case_row c)" and "rls_permits db a Update_cmd (Case_row c')"
  shows "cs_primary_circle_id c' = cs_primary_circle_id c"
  using assms by (simp add: case_update_policy spec_manage_collaboration_def)

text \<open>
  C8. Entitlement is monotonic: through any history of statements issued by any callers,
  a case stays stored as the same row, under the same id, keeps every circle of its
  entitled-circle set, and no collaboration link is removed. The statements of a
  history are single-row inserts, updates and deletes by id, and calls of
  \<open>log_audit_event\<close>. For any other \<open>UPDATE\<close> or \<open>DELETE\<close> the policies say the same: none
  admits a collaboration link for \<open>UPDATE\<close>, none admits any row for \<open>DELETE\<close> (so that
  no \<open>ON DELETE CASCADE\<close> runs), and the \<open>UPDATE\<close> policy on \<open>cases\<close> admits an old and a
  new row of a case for one caller only if they have the same primary circle.
\<close>

theorem entitlement_monotonic:
  assumes "c \<in> set (cases db)"
  shows "c \<in> set (cases (run db ops))
    \<and> entitledCircles db c \<subseteq> entitledCircles (run db ops) c
    \<and> set (case_circles db) \<subseteq> set (case_circles (run db ops))
    \<and> \<not> rls_permits db a Update_cmd (Link_row l)
    \<and> \<not> rls_permits db a Delete_cmd r
    \<and> (pk_user_profiles db \<longrightarrow> rls_permits db a Update_cmd (Case_row old) \<longrightarrow>
          rls_permits db a Update_cmd (Case_row new) \<longrightarrow>
          cs_primary_circle_id new = cs_primary_circle_id old)"
proof -
  from run_invariant [of db ops] assms
  have kept: "c \<in> set (cases (run db ops))"
    and links: "case_circles (run db ops) = case_circles db"
    by auto
  from links have "entitledCircles (run db ops) c = entitledCircles db c"
    by (simp add: entitledCircles_def)
  with kept links same_primary_circle [of db a old new] show ?thesis
    by (simp add: no_link_update no_delete)
qed

lemma demo_run: "run demo_db demo_history = demo_db_after"
  by (simp add: demo_history_def demo_db_after_def demo_case2_def demo_case_closed_def
      state_after_def policies_rewrite_simps where_permits_def visible_profiles_def
      update_table_def cases_violation_def user_profiles_violation_def fk_present_def
      demo_defs)

theorem entitlement_monotonic_witness:
  "run demo_db demo_history = demo_db_after
   \<and> demo_case \<in> set (cases demo_db_after)
   \<and> entitledCircles demo_db demo_case = {1, 2}
   \<and> {1, 2} \<subseteq> entitledCircles demo_db_after demo_case
   \<and> demo_link \<in> set (case_circles demo_db_after)
   \<and> rls_permits demo_db (Authenticated 10) Update_cmd (Case_row demo_case)
   \<and> rls_permits demo_db (Authenticated 10) Update_cmd (Case_row demo_case_closed)
   \<and> cs_primary_circle_id demo_case_closed = cs_primary_circle_id demo_case"
proof -
  have mem: "demo_case \<in> set (cases demo_db)"
    by (simp add: demo_defs)
  have e: "entitledCircles demo_db demo_case = {1, 2}"
    by (simp add: entitledCircles_def demo_defs)
  have l: "demo_link \<in> set (case_circles demo_db)"
    by (simp add: demo_defs)
  have pk: "pk_user_profiles demo_db"
    by (simp add: pk_user_profiles_def demo_defs)
  have u: "rls_permits demo_db (Authenticated 10) Update_cmd (Case_row demo_case)"
    "rls_permits demo_db (Authenticated 10) Update_cmd (Case_row demo_case_closed)"
    by (simp_all add: policies_rewrite_simps visible_profiles_def sql_in_def
        demo_case_closed_def demo_defs)
  from entitlement_monotonic [OF mem, where ops = demo_history and a = "Authenticated 10"
      and old = demo_case and new = demo_case_closed] e l pk u
  show ?thesis
    unfolding demo_run by auto
qed

end
